theory Spec2Isabelle
  imports Complex_Main "HOL-Library.Word" "HOL-Library.Sublist"
begin

section \<open>Strings and bytes\<close>

text \<open>
  A Python \<open>bytes\<close> value is a list of 8-bit words. A Python \<open>str\<close> is modelled by
  its UTF-8 byte string, an Isabelle \<open>string\<close>: equality, \<open>startswith\<close>, \<open>endswith\<close> and
  the test \<open>'/' in s\<close> give the same answer on the UTF-8 form as on the code points.
\<close>

type_synonym byte = "8 word"
type_synonym bytes = "byte list"

definition startswith :: "'a list \<Rightarrow> 'a list \<Rightarrow> bool" where
  "startswith s p = prefix p s"

definition endswith :: "'a list \<Rightarrow> 'a list \<Rightarrow> bool" where
  "endswith s p = suffix p s"

text \<open>\<open>str(n)\<close> for a non-negative integer: its decimal digits.\<close>

definition digit_char :: "nat \<Rightarrow> char" where
  "digit_char d = ''0123456789'' ! d"

fun str_nat :: "nat \<Rightarrow> string" where
  "str_nat n = (if n < 10 then [digit_char n] else str_nat (n div 10) @ [digit_char (n mod 10)])"

declare str_nat.simps [simp del]

text \<open>\<open>s.split(sep)\<close> for a one-character separator.\<close>

fun split_on :: "'a \<Rightarrow> 'a list \<Rightarrow> 'a list list" where
  "split_on sep [] = [[]]"
| "split_on sep (c # cs) =
     (if c = sep then [] # split_on sep cs
      else (case split_on sep cs of [] \<Rightarrow> [[c]] | p # ps \<Rightarrow> (c # p) # ps))"

section \<open>The library functions the proxy calls\<close>

text \<open>
  The proxy calls Python's \<open>ipaddress\<close> module, \<open>socket.inet_ntop\<close>, \<open>bytes.decode\<close>,
  \<open>hashlib.sha256\<close> and \<open>asyncio.open_connection\<close>. They are parameters of the model:
  a parser returns \<open>None\<close> where the Python function raises \<open>ValueError\<close>, and
  \<open>open_connection\<close> says whether the dial succeeds within the timeout.
\<close>

record ('ip, 'net) pylib =
  ip_address :: "string \<Rightarrow> 'ip option"
  ip_network :: "string \<Rightarrow> 'net option"
  net_contains :: "'net \<Rightarrow> 'ip \<Rightarrow> bool"
  inet_ntop6 :: "bytes \<Rightarrow> string"
  decode_utf8_ignore :: "bytes \<Rightarrow> string"
  sha256_hexdigest :: "string \<Rightarrow> string"
  open_connection :: "string \<Rightarrow> nat \<Rightarrow> bool"

subsection \<open>An instance: dotted-quad addresses and prefix-length networks\<close>

text \<open>
  The IPv4 part of \<open>ipaddress\<close>: an address is four decimal octets without leading
  zeros, a network is an address, a slash and a prefix length from 0 to 32, read with
  \<open>strict=False\<close> (host bits are masked off). Decoding keeps the ASCII bytes, which is
  what \<open>decode('utf-8', errors='ignore')\<close> does on a byte string without a valid
  multi-byte sequence. This instance is used at concrete inputs only; the general
  theorems hold for every library.
\<close>

definition is_digit :: "char \<Rightarrow> bool" where
  "is_digit c \<longleftrightarrow> 48 \<le> (of_char c :: nat) \<and> (of_char c :: nat) \<le> 57"

definition int_of_digits :: "string \<Rightarrow> nat" where
  "int_of_digits s = foldl (\<lambda>n c. 10 * n + (of_char c - 48)) 0 s"

definition parse_octet :: "string \<Rightarrow> nat option" where
  "parse_octet s =
     (if s = [] then None
      else if \<not> list_all is_digit s then None
      else if length s > 3 then None
      else if s \<noteq> ''0'' \<and> hd s = CHR ''0'' then None
      else if int_of_digits s > 255 then None
      else Some (int_of_digits s))"

definition ip_from_octets :: "nat list \<Rightarrow> nat" where
  "ip_from_octets os = foldl (\<lambda>n b. 256 * n + b) 0 os"

definition ipv4_address :: "string \<Rightarrow> nat option" where
  "ipv4_address s =
     (let octets = map parse_octet (split_on CHR ''.'' s)
      in if length octets \<noteq> 4 \<or> None \<in> set octets then None
         else Some (ip_from_octets (map the octets)))"

definition parse_prefixlen :: "string \<Rightarrow> nat option" where
  "parse_prefixlen s =
     (if s = [] \<or> \<not> list_all is_digit s then None
      else if int_of_digits s > 32 then None
      else Some (int_of_digits s))"

text \<open>A network is its network address and its prefix length.\<close>

definition ipv4_network :: "string \<Rightarrow> (nat \<times> nat) option" where
  "ipv4_network s =
     (case split_on CHR ''/'' s of
        [a, p] \<Rightarrow>
          (case (ipv4_address a, parse_prefixlen p) of
             (Some ip, Some len) \<Rightarrow> Some (ip div 2 ^ (32 - len) * 2 ^ (32 - len), len)
           | _ \<Rightarrow> None)
      | _ \<Rightarrow> None)"

definition ipv4_contains :: "nat \<times> nat \<Rightarrow> nat \<Rightarrow> bool" where
  "ipv4_contains network ip =
     (case network of (base, len) \<Rightarrow> ip div 2 ^ (32 - len) * 2 ^ (32 - len) = base)"

definition decode_ascii :: "bytes \<Rightarrow> string" where
  "decode_ascii bs = map (\<lambda>b. char_of (unat b)) (filter (\<lambda>b. b < 128) bs)"

text \<open>
  The remaining fields of the instance are placeholders: no concrete input below has an
  IPv6 request or reaches the password hash with authentication required.
\<close>

definition ipv4_lib :: "(string \<Rightarrow> nat \<Rightarrow> bool) \<Rightarrow> (nat, nat \<times> nat) pylib" where
  "ipv4_lib dial =
     \<lparr> ip_address = ipv4_address, ip_network = ipv4_network, net_contains = ipv4_contains,
       inet_ntop6 = (\<lambda>_. ''::''), decode_utf8_ignore = decode_ascii,
       sha256_hexdigest = (\<lambda>s. s), open_connection = dial \<rparr>"

section \<open>Domain Filter\<close>

text \<open>
  \<open>SOCKS5Server._is_telegram_address\<close>. The allow set \<open>config.telegram_domains\<close> is a
  Python set; it is given here by a list of its elements, and each \<open>for\<close> loop over the
  set is a recursion over that list, returning at the first match as the source does.
\<close>

fun subdomain_loop :: "string list \<Rightarrow> string \<Rightarrow> bool" where
  "subdomain_loop [] addr = False"
| "subdomain_loop (domain # rest) addr =
     (if \<not> startswith domain ''*.'' \<and> endswith addr (''.'' @ domain) then True
      else subdomain_loop rest addr)"

fun cidr_loop :: "('ip, 'net) pylib \<Rightarrow> 'ip \<Rightarrow> string list \<Rightarrow> bool" where
  "cidr_loop lib ip [] = False"
| "cidr_loop lib ip (cidr # rest) =
     (if CHR ''/'' \<in> set cidr then
        (case ip_network lib cidr of
           None \<Rightarrow> cidr_loop lib ip rest
         | Some network \<Rightarrow> if net_contains lib network ip then True else cidr_loop lib ip rest)
      else cidr_loop lib ip rest)"

definition is_telegram_address :: "('ip, 'net) pylib \<Rightarrow> string list \<Rightarrow> string \<Rightarrow> bool" where
  "is_telegram_address lib domains addr =
     (if addr \<in> set domains then True
      else if subdomain_loop domains addr then True
      else (case ip_address lib addr of
              None \<Rightarrow> False
            | Some ip \<Rightarrow> cidr_loop lib ip domains))"

text \<open>
  The default allow set of \<open>ProxyConfig.__post_init__\<close>; the set literal names
  \<open>149.154.160.0/20\<close> twice, and a set holds it once.
\<close>

definition default_telegram_domains :: "string list" where
  "default_telegram_domains =
     [''api.telegram.org'', ''core.telegram.org'', ''web.telegram.org'',
      ''desktop.telegram.org'', ''updates.tdesktop.com'',
      ''149.154.160.0/20'', ''91.108.4.0/22'', ''91.108.8.0/22'', ''91.108.12.0/22'',
      ''91.108.16.0/22'', ''91.108.20.0/22'', ''91.108.56.0/22'',
      ''149.154.164.0/22'', ''149.154.168.0/22'', ''149.154.172.0/22'']"

section \<open>Configuration and server state\<close>

text \<open>
  The fields of \<open>ProxyConfig\<close> that the modelled functions read. A \<open>SOCKS5Server\<close> holds
  the configuration and the token table of its \<open>AuthManager\<close>.
\<close>

record proxy_config =
  rate_limit_per_ip :: int
  rate_limit_window :: int
  auth_required :: bool
  telegram_domains :: "string list"

record socks5_server =
  config :: proxy_config
  auth_tokens :: "string \<rightharpoonup> string"

text \<open>
  The defaults of the \<open>ProxyConfig\<close> dataclass, and a server whose token table is the one
  \<open>_load_auth_tokens\<close> builds when the environment sets nothing.
\<close>

definition default_config :: proxy_config where
  "default_config =
     \<lparr> rate_limit_per_ip = 15, rate_limit_window = 60, auth_required = True,
       telegram_domains = default_telegram_domains \<rparr>"

definition default_server :: "('ip, 'net) pylib \<Rightarrow> socks5_server" where
  "default_server lib =
     \<lparr> config = default_config,
       auth_tokens = [''admin'' \<mapsto> sha256_hexdigest lib ''default_admin_token_change_me''] \<rparr>"

text \<open>
  The mutable state: the rate limiter's \<open>requests\<close> dictionary (a \<open>defaultdict\<close> of
  deques of timestamps) and the three counters of the metrics registry.
\<close>

record server_state =
  requests :: "string \<rightharpoonup> real list"
  rate_limit_hits :: nat
  connection_counter :: nat
  active_connections :: int

text \<open>The state of a server that has not yet accepted a connection.\<close>

definition initial_state :: server_state where
  "initial_state =
     \<lparr> requests = Map.empty, rate_limit_hits = 0, connection_counter = 0,
       active_connections = 0 \<rparr>"

section \<open>Rate Limiter\<close>

text \<open>
  \<open>RateLimiter.is_allowed\<close>, with the value of \<open>time.time()\<close> as the argument \<open>now\<close>.
  Timestamps are real numbers: the subtraction \<open>now - window_seconds\<close> is taken to be
  exact. Reading \<open>self.requests[client_ip]\<close> creates an empty deque for a new key. The
  \<open>while\<close> loop pops from the left while the head is not newer than the window start.
\<close>

definition defaultdict_get :: "('k \<rightharpoonup> 'v list) \<Rightarrow> 'k \<Rightarrow> 'v list" where
  "defaultdict_get d k = (case d k of None \<Rightarrow> [] | Some q \<Rightarrow> q)"

fun popleft_old :: "real \<Rightarrow> real list \<Rightarrow> real list" where
  "popleft_old bound [] = []"
| "popleft_old bound (t # ts) = (if t \<le> bound then popleft_old bound ts else t # ts)"

definition is_allowed ::
  "proxy_config \<Rightarrow> real \<Rightarrow> string \<Rightarrow> server_state \<Rightarrow> bool \<times> server_state" where
  "is_allowed cfg now client_ip st =
     (if client_ip \<in> set [''127.0.0.1'', ''::1'', ''localhost''] then (True, st)
      else
        let client_requests = defaultdict_get (requests st) client_ip;
            client_requests = popleft_old (now - real_of_int (rate_limit_window cfg)) client_requests
        in if int (length client_requests) \<ge> rate_limit_per_ip cfg
           then (False, st\<lparr>requests := (requests st)(client_ip \<mapsto> client_requests),
                            rate_limit_hits := rate_limit_hits st + 1\<rparr>)
           else (True, st\<lparr>requests := (requests st)(client_ip \<mapsto> client_requests @ [now])\<rparr>))"

section \<open>Auth Manager\<close>

definition authenticate :: "('ip, 'net) pylib \<Rightarrow> socks5_server \<Rightarrow> string \<Rightarrow> string \<Rightarrow> bool" where
  "authenticate lib srv username password =
     (if \<not> auth_required (config srv) then True
      else auth_tokens srv username = Some (sha256_hexdigest lib password))"

section \<open>SOCKS5 Protocol Engine\<close>

text \<open>
  What a session does is a list of events in order: bytes written to the client, a dial
  of the upstream destination, the relay, and the close of the client socket. Writes to
  the client are taken to succeed.
\<close>

datatype event = Write bytes | Dial string nat | Relay | Close

definition SOCKS_VERSION :: byte where
  "SOCKS_VERSION = 5"

text \<open>\<open>struct.pack('!BBBBIH', SOCKS_VERSION, code, 0, 1, 0, 0)\<close>: ten bytes.\<close>

definition reply :: "byte \<Rightarrow> bytes" where
  "reply code = [SOCKS_VERSION, code, 0, 1, 0, 0, 0, 0, 0, 0]"

text \<open>The slice \<open>data[i:j]\<close> for \<open>0 \<le> i \<le> j\<close>.\<close>

definition py_slice :: "'a list \<Rightarrow> nat \<Rightarrow> nat \<Rightarrow> 'a list" where
  "py_slice data i j = take (j - i) (drop i data)"

text \<open>\<open>struct.unpack('!H', bs)[0]\<close> on two bytes: big-endian.\<close>

definition unpack_H :: "bytes \<Rightarrow> nat" where
  "unpack_H bs = foldl (\<lambda>n b. 256 * n + unat b) 0 bs"

text \<open>\<open>socket.inet_ntoa\<close>; the engine calls it on four bytes only.\<close>

fun join_dot :: "string list \<Rightarrow> string" where
  "join_dot [] = []"
| "join_dot [s] = s"
| "join_dot (s # rest) = s @ ''.'' @ join_dot rest"

definition inet_ntoa :: "bytes \<Rightarrow> string" where
  "inet_ntoa packed = join_dot (map (\<lambda>b. str_nat (unat b)) packed)"

text \<open>
  \<open>reader.read(n)\<close>: the reader is the list of chunks that successive reads find
  available; a read returns at most \<open>n\<close> bytes of the first chunk and leaves the rest,
  and returns the empty byte string at end of stream.
\<close>

definition reader_read :: "nat \<Rightarrow> bytes list \<Rightarrow> bytes \<times> bytes list" where
  "reader_read n reader =
     (case reader of
        [] \<Rightarrow> ([], [])
      | d # rest \<Rightarrow> (take n d, if length d > n then drop n d # rest else rest))"

text \<open>
  The end of \<open>_handle_socks5_request\<close>, from the security check on: the filter, then the
  dial, the success reply and the relay, or the failure reply.
\<close>

definition check_and_connect ::
  "('ip, 'net) pylib \<Rightarrow> socks5_server \<Rightarrow> string \<Rightarrow> nat \<Rightarrow> event list" where
  "check_and_connect lib srv addr port =
     (if \<not> is_telegram_address lib (telegram_domains (config srv)) addr then [Write (reply 2)]
      else if open_connection lib addr port then [Dial addr port, Write (reply 0), Relay]
      else [Dial addr port, Write (reply 1)])"

text \<open>
  The address block of \<open>_handle_socks5_request\<close> (\<open># Parse address\<close>): the target address
  and port on the right, or on the left what the engine writes before it returns early.
\<close>

definition parse_address :: "('ip, 'net) pylib \<Rightarrow> bytes \<Rightarrow> event list + string \<times> nat" where
  "parse_address lib data =
     (let addr_type = data ! 3 in
      if addr_type = 1 then
        (if length data < 10 then Inl []
         else Inr (inet_ntoa (py_slice data 4 8), unpack_H (py_slice data 8 10)))
      else if addr_type = 3 then
        (if length data < 5 then Inl []
         else
           let addr_len = unat (data ! 4) in
           if length data < 5 + addr_len + 2 then Inl []
           else Inr (decode_utf8_ignore lib (py_slice data 5 (5 + addr_len)),
                     unpack_H (py_slice data (5 + addr_len) (5 + addr_len + 2))))
      else if addr_type = 4 then
        (if length data < 22 then Inl []
         else Inr (inet_ntop6 lib (py_slice data 4 20), unpack_H (py_slice data 20 22)))
      else Inl [Write (reply 8)])"

definition handle_socks5_request ::
  "('ip, 'net) pylib \<Rightarrow> socks5_server \<Rightarrow> bytes \<Rightarrow> event list" where
  "handle_socks5_request lib srv data =
     (if length data < 10 then []
      else
        let version = data ! 0; cmd = data ! 1 in
        if version \<noteq> SOCKS_VERSION \<or> cmd \<noteq> 1 then [Write (reply 7)]
        else
          (case parse_address lib data of
             Inl written \<Rightarrow> written
           | Inr (addr, port) \<Rightarrow> check_and_connect lib srv addr port))"

definition handle_authentication ::
  "('ip, 'net) pylib \<Rightarrow> socks5_server \<Rightarrow> bytes \<Rightarrow> event list \<times> bool" where
  "handle_authentication lib srv data =
     (if length data < 3 then ([], False)
      else if data ! 0 \<noteq> 1 then ([], False)
      else
        let username_len = unat (data ! 1) in
        if length data < 2 + username_len + 1 then ([], False)
        else
          let username = decode_utf8_ignore lib (py_slice data 2 (2 + username_len));
              password_len = unat (data ! (2 + username_len)) in
          if length data < 2 + username_len + 1 + password_len then ([], False)
          else
            let password = decode_utf8_ignore lib
                  (py_slice data (2 + username_len + 1) (2 + username_len + 1 + password_len)) in
            if authenticate lib srv username password then ([Write [1, 0]], True)
            else ([Write [1, 1]], False))"

definition handle_socks5_handshake ::
  "('ip, 'net) pylib \<Rightarrow> socks5_server \<Rightarrow> bytes list \<Rightarrow> event list" where
  "handle_socks5_handshake lib srv reader =
     (let (data, reader) = reader_read 262 reader in
      if length data < 3 then []
      else
        let version = data ! 0; nmethods = unat (data ! 1) in
        if version \<noteq> SOCKS_VERSION then []
        else
          let methods = py_slice data 2 (2 + nmethods) in
          if auth_required (config srv) then
            (if 2 \<notin> set methods then [Write [SOCKS_VERSION, 0xFF]]
             else
               let (data, reader) = reader_read 513 reader;
                   (written, ok) = handle_authentication lib srv data in
               if \<not> ok then Write [SOCKS_VERSION, 2] # written
               else Write [SOCKS_VERSION, 2] # written
                      @ handle_socks5_request lib srv (fst (reader_read 262 reader)))
          else Write [SOCKS_VERSION, 0]
                 # handle_socks5_request lib srv (fst (reader_read 262 reader)))"

text \<open>
  \<open>SOCKS5Server.handle_client\<close>. The rate limiter is consulted only when the peer is not
  exempt: Python's \<open>and\<close> does not evaluate its right operand otherwise. The gauge of
  active connections is raised before the handshake and lowered after it, and the
  socket is closed on every path.
\<close>

definition handle_client ::
  "('ip, 'net) pylib \<Rightarrow> socks5_server \<Rightarrow> real \<Rightarrow> (string \<times> nat) option \<Rightarrow> bytes list
     \<Rightarrow> server_state \<Rightarrow> event list \<times> server_state" where
  "handle_client lib srv now client_addr reader st =
     (let client_ip = (case client_addr of Some (ip, port) \<Rightarrow> ip | None \<Rightarrow> ''unknown'');
          exempt_ips = [''127.0.0.1'', ''::1'', ''localhost''];
          is_docker_internal = (startswith client_ip ''172.'' \<or> startswith client_ip ''10.'')
      in
        if client_ip \<notin> set exempt_ips \<and> \<not> is_docker_internal then
          (case is_allowed (config srv) now client_ip st of
             (False, st') \<Rightarrow> ([Close], st')
           | (True, st') \<Rightarrow>
               (handle_socks5_handshake lib srv reader @ [Close],
                st'\<lparr>connection_counter := connection_counter st' + 1,
                    active_connections := active_connections st' + 1 - 1\<rparr>))
        else
          (handle_socks5_handshake lib srv reader @ [Close],
           st\<lparr>connection_counter := connection_counter st + 1,
              active_connections := active_connections st + 1 - 1\<rparr>))"

text \<open>
  Successive admission checks of one peer at the given times, each on the state the
  previous one left: the decisions in order, and the final state.
\<close>

fun admission_checks ::
  "proxy_config \<Rightarrow> string \<Rightarrow> real list \<Rightarrow> server_state \<Rightarrow> bool list \<times> server_state" where
  "admission_checks cfg client_ip [] st = ([], st)"
| "admission_checks cfg client_ip (now # later) st =
     (let (ok, st') = is_allowed cfg now client_ip st;
          (oks, st'') = admission_checks cfg client_ip later st'
      in (ok # oks, st''))"

section \<open>The Domain Filter as the specification words it\<close>

text \<open>
  The specification's allow set holds hostnames and CIDR blocks, and its filter accepts
  an address that equals a hostname, or ends with a dot followed by a hostname, or parses
  as an IP literal inside a CIDR block.
\<close>

definition domain_filter_spec ::
  "('ip, 'net) pylib \<Rightarrow> string list \<Rightarrow> string list \<Rightarrow> string \<Rightarrow> bool" where
  "domain_filter_spec lib hostnames cidrs addr \<longleftrightarrow>
     addr \<in> set hostnames
     \<or> list_ex (\<lambda>h. endswith addr (''.'' @ h)) hostnames
     \<or> (case ip_address lib addr of
           None \<Rightarrow> False
         | Some ip \<Rightarrow>
             list_ex (\<lambda>c. case ip_network lib c of
                             None \<Rightarrow> False
                           | Some network \<Rightarrow> net_contains lib network ip) cidrs)"

section \<open>Traffic Obfuscator\<close>

text \<open>
  \<open>TrafficObfuscator\<close> holds a Fernet cipher. Its two operations are parameters:
  \<open>encrypt\<close> is the encryption with the random choices of one call fixed, and \<open>decrypt\<close>
  returns \<open>None\<close> where \<open>Fernet.decrypt\<close> raises.
\<close>

record fernet =
  encrypt :: "bytes \<Rightarrow> bytes"
  decrypt :: "bytes \<Rightarrow> bytes option"

definition CRLF :: string where
  "CRLF = [CHR 0x0D, CHR 0x0A]"

text \<open>\<open>str.encode()\<close> on the ASCII header text.\<close>

definition encode :: "string \<Rightarrow> bytes" where
  "encode s = map of_char s"

definition user_agents :: "string list" where
  "user_agents =
     [''Mozilla/5.0 (Windows NT 10.0; Win64; x64) AppleWebKit/537.36'',
      ''Mozilla/5.0 (Macintosh; Intel Mac OS X 10_15_7) AppleWebKit/537.36'',
      ''Mozilla/5.0 (X11; Linux x86_64) AppleWebKit/537.36'']"

definition fake_paths :: "string list" where
  "fake_paths = [''/api/v1/data'', ''/static/js/app.js'', ''/images/logo.png'', ''/css/style.css'']"

text \<open>
  \<open>_generate_fake_http_headers\<close>; the two calls of \<open>random.choice\<close> are the indices
  \<open>path_choice\<close> and \<open>agent_choice\<close>.
\<close>

definition generate_fake_http_headers :: "nat \<Rightarrow> nat \<Rightarrow> string" where
  "generate_fake_http_headers path_choice agent_choice =
     ''GET '' @ fake_paths ! path_choice @ '' HTTP/1.1'' @ CRLF
     @ ''Host: cdn.cloudflare.com'' @ CRLF
     @ ''User-Agent: '' @ user_agents ! agent_choice @ CRLF
     @ ''Accept: text/html,application/xhtml+xml,application/xml;q=0.9,*/*;q=0.8'' @ CRLF
     @ ''Accept-Language: en-US,en;q=0.5'' @ CRLF
     @ ''Accept-Encoding: gzip, deflate'' @ CRLF
     @ ''Connection: keep-alive'' @ CRLF"

text \<open>
  \<open>obfuscate\<close>; \<open>padding\<close> is the value of \<open>os.urandom(random.randint(1, 16))\<close>.
\<close>

definition obfuscate :: "fernet \<Rightarrow> nat \<Rightarrow> nat \<Rightarrow> bytes \<Rightarrow> bytes \<Rightarrow> bytes" where
  "obfuscate f path_choice agent_choice padding data =
     (let encrypted = encrypt f data;
          fake_headers = generate_fake_http_headers path_choice agent_choice
      in encode fake_headers @ encode (CRLF @ CRLF) @ encrypted @ padding)"

text \<open>\<open>data.split(sep, 1)\<close> when \<open>sep\<close> occurs in \<open>data\<close>, and \<open>None\<close> when it does not.\<close>

fun split_once :: "bytes \<Rightarrow> bytes \<Rightarrow> (bytes \<times> bytes) option" where
  "split_once sep [] = (if sep = [] then Some ([], []) else None)"
| "split_once sep (c # cs) =
     (if prefix sep (c # cs) then Some ([], drop (length sep) (c # cs))
      else map_option (\<lambda>(h, b). (c # h, b)) (split_once sep cs))"

text \<open>
  The loop of \<open>deobfuscate\<close> over the padding sizes: \<open>body[:-padding_size]\<close> is tried in
  turn, the first successful decryption is returned, and the input is returned when
  every size fails.
\<close>

fun try_padding_sizes :: "fernet \<Rightarrow> bytes \<Rightarrow> bytes \<Rightarrow> nat list \<Rightarrow> bytes" where
  "try_padding_sizes f data body [] = data"
| "try_padding_sizes f data body (padding_size # sizes) =
     (let encrypted_data = (if padding_size > 0 then take (length body - padding_size) body else body)
      in case decrypt f encrypted_data of
           Some decrypted \<Rightarrow> decrypted
         | None \<Rightarrow> try_padding_sizes f data body sizes)"

definition deobfuscate :: "fernet \<Rightarrow> bytes \<Rightarrow> bytes" where
  "deobfuscate f data =
     (let body = (case split_once (encode (CRLF @ CRLF)) data of
                    Some (_, body) \<Rightarrow> body
                  | None \<Rightarrow> data)
      in try_padding_sizes f data body [1..<17])"

text \<open>
  A small cipher for concrete evaluation. A token is the payload with every byte
  complemented, between a start byte and an end byte; decryption skips carriage returns
  and line feeds in front of the token and fails on anything else that is not a token.
\<close>

definition sample_encrypt :: "bytes \<Rightarrow> bytes" where
  "sample_encrypt data = [0x80] @ map (\<lambda>b. 255 - b) data @ [0x2E]"

definition sample_decrypt :: "bytes \<Rightarrow> bytes option" where
  "sample_decrypt token =
     (case dropWhile (\<lambda>b. b = 13 \<or> b = 10) token of
        [] \<Rightarrow> None
      | v # rest \<Rightarrow>
          if v = 0x80 \<and> rest \<noteq> [] \<and> last rest = 0x2E
          then Some (map (\<lambda>b. 255 - b) (butlast rest)) else None)"

definition sample_fernet :: fernet where
  "sample_fernet = \<lparr> encrypt = sample_encrypt, decrypt = sample_decrypt \<rparr>"

section \<open>Port Hopper\<close>

record bypass_config =
  socks_host :: string
  socks_port :: nat
  port_range :: "nat \<times> nat"
  hop_interval :: nat

text \<open>The defaults of the \<open>BypassConfig\<close> dataclass.\<close>

definition default_bypass_config :: bypass_config where
  "default_bypass_config =
     \<lparr> socks_host = ''localhost'', socks_port = 1080, port_range = (8000, 9000),
       hop_interval = 300 \<rparr>"

text \<open>
  The state of a \<open>PortHopper\<close>: the current port and the dictionary of open listeners.
  A listener is given by the address its connection handler dials.
\<close>

record hop_state =
  current_port :: "nat option"
  servers :: "nat \<rightharpoonup> string \<times> nat"

text \<open>
  \<open>handle_hopped_connection\<close> opens a connection to the main proxy and forwards both
  directions; the listener started with it is identified by that address.
\<close>

definition handle_hopped_connection :: "bypass_config \<Rightarrow> string \<times> nat" where
  "handle_hopped_connection cfg = (socks_host cfg, socks_port cfg)"

text \<open>
  The choice of the new port: \<open>draws\<close> are the values \<open>random.randint\<close> returns in
  order. The loop draws again while the port equals the current one; \<open>None\<close> says that
  the draws ran out before the loop ended.
\<close>

fun pick_port :: "nat option \<Rightarrow> nat list \<Rightarrow> nat option" where
  "pick_port current [] = None"
| "pick_port current (new_port # draws) =
     (if Some new_port = current then pick_port current draws else Some new_port)"

text \<open>
  \<open>hop_to_new_port\<close>, started at time \<open>now\<close>. The result lists each state the hop
  establishes with the time from which it holds. \<open>start_server\<close> says whether the
  listener can be started on a port (it raises otherwise, and the hop changes nothing).
  The grace period is \<open>asyncio.sleep(60)\<close>, which returns after 60 seconds plus a
  scheduling delay \<open>lag\<close>.
\<close>

definition hop_to_new_port ::
  "bypass_config \<Rightarrow> (nat \<Rightarrow> bool) \<Rightarrow> nat list \<Rightarrow> real \<Rightarrow> real \<Rightarrow> hop_state
     \<Rightarrow> (real \<times> hop_state) list option" where
  "hop_to_new_port cfg start_server draws lag now st =
     (case pick_port (current_port st) draws of
        None \<Rightarrow> None
      | Some new_port \<Rightarrow>
          Some
            (if \<not> start_server new_port then []
             else
               let old_port = current_port st;
                   st1 = st\<lparr>servers := (servers st)(new_port \<mapsto> handle_hopped_connection cfg),
                           current_port := Some new_port\<rparr>
               in case old_port of
                    None \<Rightarrow> [(now, st1)]
                  | Some old \<Rightarrow>
                      if old \<noteq> 0 \<and> old \<in> dom (servers st1)
                      then [(now, st1), (now + 60 + lag, st1\<lparr>servers := (servers st1)(old := None)\<rparr>)]
                      else [(now, st1)]))"

section \<open>Facts about the helpers\<close>

lemma reader_read_whole: "length d \<le> n \<Longrightarrow> reader_read n (d # rest) = (d, rest)"
  by (simp add: reader_read_def)

lemma greeting_methods:
  assumes "length methods \<le> 255"
  shows "py_slice (5 # word_of_nat (length methods) # methods) 2
           (2 + unat (word_of_nat (length methods) :: byte)) = methods"
proof -
  have "unat (word_of_nat (length methods) :: byte) = length methods"
    using assms by (simp add: unat_of_nat)
  then show ?thesis by (simp add: py_slice_def numeral_2_eq_2)
qed

lemma decode_ascii_ab: "decode_ascii [97, 98] = ''ab''"
  by code_simp

lemma decode_ascii_evil:
  "decode_ascii [101, 118, 105, 108, 46, 101, 120, 97, 109, 112, 108, 101, 46, 99, 111, 109]
     = ''evil.example.com''"
  by code_simp

lemmas filter_eval =
  is_telegram_address_def default_telegram_domains_def ipv4_lib_def ipv4_address_def
  ipv4_network_def ipv4_contains_def parse_octet_def parse_prefixlen_def is_digit_def
  int_of_digits_def ip_from_octets_def startswith_def endswith_def suffix_def

lemma default_rejects_ab:
  "\<not> is_telegram_address (ipv4_lib dial) default_telegram_domains ''ab''"
  by (simp add: filter_eval)

lemma default_rejects_evil:
  "\<not> is_telegram_address (ipv4_lib dial) default_telegram_domains ''evil.example.com''"
  by (simp add: filter_eval)

lemma parse_address_evil:
  "parse_address (ipv4_lib dial)
     [5, 1, 0, 3, 16, 101, 118, 105, 108, 46, 101, 120, 97, 109, 112, 108, 101, 46, 99, 111, 109, 0, 80]
     = Inr (''evil.example.com'', 80)"
  by (simp add: parse_address_def py_slice_def unpack_H_def ipv4_lib_def decode_ascii_evil)

lemma inet_ntoa_example: "inet_ntoa [8, 8, 8, 8] = ''8.8.8.8''"
  by (simp add: inet_ntoa_def str_nat.simps digit_char_def)

lemma default_rejects_8888:
  "\<not> is_telegram_address (ipv4_lib dial) default_telegram_domains ''8.8.8.8''"
  by (simp add: filter_eval)

lemma parse_address_8888:
  "parse_address (ipv4_lib dial) [5, 1, 0, 1, 8, 8, 8, 8, 0, 53] = Inr (''8.8.8.8'', 53)"
  by (simp add: parse_address_def py_slice_def unpack_H_def inet_ntoa_example)

lemma decode_ascii_api:
  "decode_ascii [97, 112, 105, 46, 116, 101, 108, 101, 103, 114, 97, 109, 46, 111, 114, 103]
     = ''api.telegram.org''"
  by code_simp

text \<open>
  A whole session, with authentication off: the peer is not exempt and is admitted, the
  greeting is answered, the CONNECT request for \<open>api.telegram.org:443\<close> passes the
  filter, the destination is dialed, and the success reply and the relay follow.
\<close>

lemma session_reaches_relay:
  "handle_client (ipv4_lib (\<lambda>_ _. True))
     \<lparr>config = default_config\<lparr>auth_required := False\<rparr>, auth_tokens = Map.empty\<rparr>
     0 (Some (''203.0.113.5'', 40000))
     [[5, 1, 0],
      [5, 1, 0, 3, 16, 97, 112, 105, 46, 116, 101, 108, 101, 103, 114, 97, 109, 46, 111, 114, 103,
       1, 187]]
     initial_state
   = ([Write [5, 0], Dial ''api.telegram.org'' 443, Write [5, 0, 0, 1, 0, 0, 0, 0, 0, 0],
       Relay, Close],
      initial_state\<lparr>requests := [''203.0.113.5'' \<mapsto> [0]], connection_counter := 1\<rparr>)"
  by (simp add: handle_client_def is_allowed_def initial_state_def defaultdict_get_def
        startswith_def handle_socks5_handshake_def reader_read_def SOCKS_VERSION_def
        py_slice_def handle_socks5_request_def parse_address_def unpack_H_def
        check_and_connect_def reply_def default_config_def)
     (simp add: ipv4_lib_def decode_ascii_api is_telegram_address_def
        default_telegram_domains_def)

section \<open>Facts about the Domain Filter\<close>

lemma subdomain_loop_iff:
  "subdomain_loop domains addr \<longleftrightarrow>
     (\<exists>d\<in>set domains. \<not> startswith d ''*.'' \<and> endswith addr (''.'' @ d))"
  by (induction domains) auto

lemma cidr_loop_iff:
  "cidr_loop lib ip domains \<longleftrightarrow>
     (\<exists>c\<in>set domains. CHR ''/'' \<in> set c
        \<and> (\<exists>network. ip_network lib c = Some network \<and> net_contains lib network ip))"
  by (induction domains) (auto split: option.splits)

lemma ipv4_address_example: "ipv4_address ''149.154.167.51'' = Some 2509940531"
  by (simp add: ipv4_address_def parse_octet_def is_digit_def int_of_digits_def
        ip_from_octets_def)

lemma ipv4_network_example: "ipv4_network ''149.154.160.0/20'' = Some (2509938688, 20)"
  by (simp add: ipv4_network_def ipv4_address_def parse_octet_def parse_prefixlen_def
        is_digit_def int_of_digits_def ip_from_octets_def)

section \<open>Facts about the rate limiter\<close>

lemma popleft_old_filter: "sorted q \<Longrightarrow> popleft_old b q = filter (\<lambda>t. b < t) q"
proof (induction q)
  case Nil
  then show ?case by simp
next
  case (Cons t ts)
  show ?case
  proof (cases "t \<le> b")
    case True
    with Cons show ?thesis by simp
  next
    case False
    with Cons.prems have "\<forall>u\<in>set ts. b < u" by auto
    then have "filter (\<lambda>t. b < t) ts = ts" by simp
    with False show ?thesis by simp
  qed
qed

lemma popleft_old_id: "\<forall>u\<in>set q. b < u \<Longrightarrow> popleft_old b q = q"
  by (cases q) auto

lemma length_popleft_old: "length (popleft_old b q) \<le> length q"
  by (induction q) auto

lemma length_popleft_old_head: "q \<noteq> [] \<Longrightarrow> hd q \<le> b \<Longrightarrow> length (popleft_old b q) < length q"
  using length_popleft_old [of b "tl q"] by (cases q) auto

lemma is_allowed_step:
  assumes "client_ip \<notin> set [''127.0.0.1'', ''::1'', ''localhost'']"
  shows "is_allowed cfg now client_ip st =
     (let kept = popleft_old (now - real_of_int (rate_limit_window cfg)) (defaultdict_get (requests st) client_ip)
      in if int (length kept) < rate_limit_per_ip cfg
         then (True, st\<lparr>requests := (requests st)(client_ip \<mapsto> kept @ [now])\<rparr>)
         else (False, st\<lparr>requests := (requests st)(client_ip \<mapsto> kept),
                         rate_limit_hits := rate_limit_hits st + 1\<rparr>))"
  using assms by (simp add: is_allowed_def Let_def)

lemma admitted_run:
  assumes "client_ip \<notin> set [''127.0.0.1'', ''::1'', ''localhost'']"
    and "\<forall>t\<in>set ts. \<forall>u\<in>set (q @ ts). t - real_of_int (rate_limit_window cfg) < u"
    and "int (length q + length ts) \<le> rate_limit_per_ip cfg"
    and "defaultdict_get (requests st) client_ip = q"
  shows "fst (admission_checks cfg client_ip ts st) = replicate (length ts) True
       \<and> defaultdict_get (requests (snd (admission_checks cfg client_ip ts st))) client_ip = q @ ts"
  using assms(2-4)
proof (induction ts arbitrary: q st)
  case Nil
  then show ?case by simp
next
  case (Cons now later)
  let ?st' = "st\<lparr>requests := (requests st)(client_ip \<mapsto> q @ [now])\<rparr>"
  have keep: "popleft_old (now - real_of_int (rate_limit_window cfg)) q = q"
    using Cons.prems(1) by (intro popleft_old_id) auto
  have room: "int (length q) < rate_limit_per_ip cfg"
    using Cons.prems(2) by simp
  have step: "is_allowed cfg now client_ip st = (True, ?st')"
    using keep room Cons.prems(3) by (simp add: is_allowed_step [OF assms(1)])
  have rec: "defaultdict_get (requests ?st') client_ip = q @ [now]"
    by (simp add: defaultdict_get_def)
  have "\<forall>t\<in>set later. \<forall>u\<in>set ((q @ [now]) @ later). t - real_of_int (rate_limit_window cfg) < u"
    using Cons.prems(1) by auto
  moreover have "int (length (q @ [now]) + length later) \<le> rate_limit_per_ip cfg"
    using Cons.prems(2) by simp
  ultimately have IH: "fst (admission_checks cfg client_ip later ?st') = replicate (length later) True
       \<and> defaultdict_get (requests (snd (admission_checks cfg client_ip later ?st'))) client_ip = (q @ [now]) @ later"
    using rec by (rule Cons.IH)
  show ?case using IH step by (simp add: split_beta)
qed

lemma admission_checks_append:
  "admission_checks cfg ip (xs @ ys) st =
     (fst (admission_checks cfg ip xs st) @ fst (admission_checks cfg ip ys (snd (admission_checks cfg ip xs st))),
      snd (admission_checks cfg ip ys (snd (admission_checks cfg ip xs st))))"
  by (induction xs arbitrary: st) (simp_all add: split_beta)

lemma window_scenario:
  assumes ne: "client_ip \<notin> set [''127.0.0.1'', ''::1'', ''localhost'']"
    and pos: "0 \<le> rate_limit_per_ip cfg"
    and len: "int (length ts) = rate_limit_per_ip cfg + 1"
    and srt: "sorted ts"
    and win: "last ts - hd ts < real_of_int (rate_limit_window cfg)"
    and emp: "defaultdict_get (requests st) client_ip = []"
  shows "fst (admission_checks cfg client_ip ts st) = replicate (length ts - 1) True @ [False]"
    and "defaultdict_get (requests (snd (admission_checks cfg client_ip ts st))) client_ip = butlast ts"
proof -
  let ?W = "real_of_int (rate_limit_window cfg)"
  have nonempty: "ts \<noteq> []" using len pos by (cases ts) auto
  have blen: "int (length (butlast ts)) = rate_limit_per_ip cfg"
    using len nonempty by (cases ts) auto
  from nonempty have ts: "ts = butlast ts @ [last ts]" by simp
  have bounds: "hd ts \<le> u \<and> u \<le> last ts" if "u \<in> set ts" for u
  proof -
    from that obtain i where i: "i < length ts" "ts ! i = u" by (auto simp: in_set_conv_nth)
    have "ts ! 0 \<le> ts ! i" using srt i(1) by (simp add: sorted_nth_mono)
    moreover have "ts ! i \<le> ts ! (length ts - 1)" using srt i(1) by (intro sorted_nth_mono) auto
    ultimately show ?thesis using nonempty i(2) by (simp add: hd_conv_nth last_conv_nth)
  qed
  have fresh: "t - ?W < u" if "t \<in> set ts" "u \<in> set ts" for t u
    using bounds [OF that(1)] bounds [OF that(2)] win by linarith
  have sub: "set (butlast ts) \<subseteq> set ts" using in_set_butlastD by fastforce
  have first: "fst (admission_checks cfg client_ip (butlast ts) st) = replicate (length (butlast ts)) True
      \<and> defaultdict_get (requests (snd (admission_checks cfg client_ip (butlast ts) st))) client_ip = [] @ butlast ts"
  proof (rule admitted_run [OF ne _ _ emp])
    show "\<forall>t\<in>set (butlast ts). \<forall>u\<in>set ([] @ butlast ts). t - ?W < u"
      using fresh sub by auto
    show "int (length [] + length (butlast ts)) \<le> rate_limit_per_ip cfg"
      using blen by simp
  qed
  let ?st1 = "snd (admission_checks cfg client_ip (butlast ts) st)"
  have rec1: "defaultdict_get (requests ?st1) client_ip = butlast ts" using first by simp
  have keep: "popleft_old (last ts - ?W) (butlast ts) = butlast ts"
    using fresh sub nonempty by (intro popleft_old_id) auto
  have full: "\<not> int (length (butlast ts)) < rate_limit_per_ip cfg" using blen by simp
  have lastc: "is_allowed cfg (last ts) client_ip ?st1
      = (False, ?st1\<lparr>requests := (requests ?st1)(client_ip \<mapsto> butlast ts),
                       rate_limit_hits := rate_limit_hits ?st1 + 1\<rparr>)"
    using full by (simp add: is_allowed_step [OF ne] rec1 keep Let_def)
  have all: "admission_checks cfg client_ip ts st = admission_checks cfg client_ip (butlast ts @ [last ts]) st"
    using ts by simp
  show "fst (admission_checks cfg client_ip ts st) = replicate (length ts - 1) True @ [False]"
    unfolding all admission_checks_append using first lastc by simp
  show "defaultdict_get (requests (snd (admission_checks cfg client_ip ts st))) client_ip = butlast ts"
    unfolding all admission_checks_append using lastc by (simp add: defaultdict_get_def)
qed

lemma admitted_after_window:
  assumes ne: "client_ip \<notin> set [''127.0.0.1'', ''::1'', ''localhost'']"
    and rec: "defaultdict_get (requests st) client_ip = q"
    and "q \<noteq> []" and "int (length q) \<le> rate_limit_per_ip cfg"
    and "hd q + real_of_int (rate_limit_window cfg) \<le> now"
  shows "fst (is_allowed cfg now client_ip st)"
proof -
  have "length (popleft_old (now - real_of_int (rate_limit_window cfg)) q) < length q"
    using assms(3,5) by (intro length_popleft_old_head) auto
  then show ?thesis using assms(4) by (simp add: is_allowed_step [OF ne] rec Let_def)
qed

section \<open>Facts about the obfuscator and the port hopper\<close>

lemma encode_append: "encode (a @ b) = encode a @ encode b"
  by (simp add: encode_def)

lemma encode_CRLF: "encode CRLF = [13, 10]"
  by (simp add: encode_def CRLF_def)

lemma of_char_eq_13: "(of_char c :: byte) = 13 \<longleftrightarrow> c = CHR 0x0D"
  by (cases c) (auto simp add: of_char_def)

lemma split_once_skip:
  assumes "CHR 0x0D \<notin> set s"
    and "\<exists>h. split_once [13, 10, 13, 10] t = Some (h, b)"
  shows "\<exists>h. split_once [13, 10, 13, 10] (encode s @ t) = Some (h, b)"
  using assms by (induction s) (auto simp add: encode_def of_char_eq_13)

lemma split_once_crlf:
  assumes "s \<noteq> []" and "hd s \<noteq> CHR 0x0D"
    and "\<exists>h. split_once [13, 10, 13, 10] (encode s @ t) = Some (h, b)"
  shows "\<exists>h. split_once [13, 10, 13, 10] (13 # 10 # encode s @ t) = Some (h, b)"
  using assms by (cases s) (auto simp add: encode_def of_char_eq_13)

lemma split_once_marker:
  "\<exists>h. split_once [13, 10, 13, 10] (13 # 10 # 13 # 10 # 13 # 10 # rest) = Some (h, 13 # 10 # rest)"
  by simp

lemma fake_paths_no_cr: "path_choice < 4 \<Longrightarrow> CHR 0x0D \<notin> set (fake_paths ! path_choice)"
proof -
  assume "path_choice < 4"
  moreover have "length fake_paths = 4" by (simp add: fake_paths_def)
  ultimately have "fake_paths ! path_choice \<in> set fake_paths" by (intro nth_mem) simp
  moreover have "\<forall>p\<in>set fake_paths. CHR 0x0D \<notin> set p" by (simp add: fake_paths_def)
  ultimately show ?thesis by blast
qed

lemma user_agents_no_cr: "agent_choice < 3 \<Longrightarrow> CHR 0x0D \<notin> set (user_agents ! agent_choice)"
proof -
  assume "agent_choice < 3"
  moreover have "length user_agents = 3" by (simp add: user_agents_def)
  ultimately have "user_agents ! agent_choice \<in> set user_agents" by (intro nth_mem) simp
  moreover have "\<forall>p\<in>set user_agents. CHR 0x0D \<notin> set p" by (simp add: user_agents_def)
  ultimately show ?thesis by blast
qed

lemma split_after_headers:
  assumes "path_choice < 4" and "agent_choice < 3"
  shows "\<exists>h. split_once (encode (CRLF @ CRLF))
           (encode (generate_fake_http_headers path_choice agent_choice) @ encode (CRLF @ CRLF) @ rest)
         = Some (h, encode CRLF @ rest)"
  unfolding generate_fake_http_headers_def encode_append encode_CRLF append_assoc
  apply (simp only: append_Cons append_Nil)
  apply (rule split_once_skip, simp)
  apply (rule split_once_skip, simp add: fake_paths_no_cr [OF assms(1)])
  apply (rule split_once_skip, simp)
  apply (rule split_once_crlf, simp, simp)
  apply (rule split_once_skip, simp)
  apply (rule split_once_crlf, simp, simp)
  apply (rule split_once_skip, simp)
  apply (rule split_once_skip, simp add: user_agents_no_cr [OF assms(2)])
  apply (rule split_once_crlf, simp, simp)
  apply (rule split_once_skip, simp)
  apply (rule split_once_crlf, simp, simp)
  apply (rule split_once_skip, simp)
  apply (rule split_once_crlf, simp, simp)
  apply (rule split_once_skip, simp)
  apply (rule split_once_crlf, simp, simp)
  apply (rule split_once_skip, simp)
  apply (rule split_once_marker)
  done


lemma try_padding_sizes_found:
  assumes "0 < a" and "a \<le> p" and "p < b"
    and "decrypt f (take (length body - p) body) = Some x"
    and "\<forall>k. a \<le> k \<and> k < p \<longrightarrow>
           decrypt f (take (length body - k) body) = None
           \<or> decrypt f (take (length body - k) body) = Some x"
  shows "try_padding_sizes f data body [a..<b] = x"
  using assms
proof (induction "p - a" arbitrary: a)
  case 0
  then have "a = p" by simp
  with 0 show ?case by (simp add: upt_conv_Cons)
next
  case (Suc n)
  then have lt: "a < p" "a < b" by auto
  have rest: "try_padding_sizes f data body [Suc a..<b] = x"
    using Suc.prems Suc.hyps(2) lt by (intro Suc.hyps(1)) auto
  from Suc.prems(5) lt(1)
  have "decrypt f (take (length body - a) body) = None
        \<or> decrypt f (take (length body - a) body) = Some x" by blast
  then show ?case
    using lt(2) Suc.prems(1) rest by (auto simp add: upt_conv_Cons)
qed

lemma pick_port_Some:
  "\<exists>p\<in>set draws. Some p \<noteq> current \<Longrightarrow>
   \<exists>new. pick_port current draws = Some new \<and> new \<in> set draws \<and> Some new \<noteq> current"
  by (induction draws) auto

section \<open>SOCKS5 Protocol Engine: the destination check\<close>

text \<open>
  C1. A CONNECT request (version 5, command 1) of at least ten bytes whose address block
  yields a target that the Domain Filter does not accept makes the engine write exactly
  the ten-byte reply with code 2 and nothing else, so it dials nothing. Whatever the
  request bytes are, the engine dials only an address that the filter accepts, and the
  session ends with the close of the client socket. The ten-byte minimum is needed:
  a shorter request is dropped before the filter is consulted, see \<open>C9\<close>.
\<close>

theorem rejected_target_gets_reply_2:
  assumes "10 \<le> length data" and "data ! 0 = 5" and "data ! 1 = 1"
    and "parse_address lib data = Inr (addr, port)"
    and "\<not> is_telegram_address lib (telegram_domains (config srv)) addr"
  shows "handle_socks5_request lib srv data = [Write [5, 2, 0, 1, 0, 0, 0, 0, 0, 0]]
       \<and> (\<forall>a p. Dial a p \<notin> set (handle_socks5_request lib srv data))
       \<and> (\<forall>data' a p. Dial a p \<in> set (handle_socks5_request lib srv data')
             \<longrightarrow> is_telegram_address lib (telegram_domains (config srv)) a)
       \<and> (\<forall>now peer reader st. last (fst (handle_client lib srv now peer reader st)) = Close)"
proof -
  have reply_2: "handle_socks5_request lib srv data = [Write [5, 2, 0, 1, 0, 0, 0, 0, 0, 0]]"
    using assms
    by (simp add: handle_socks5_request_def check_and_connect_def SOCKS_VERSION_def reply_def)
  have only_accepted: "is_telegram_address lib (telegram_domains (config srv)) a"
    if "Dial a p \<in> set (handle_socks5_request lib srv data')" for data' a p
    using that
    by (auto simp add: handle_socks5_request_def check_and_connect_def parse_address_def
          reply_def Let_def split: if_splits sum.splits)
  have closes: "last (fst (handle_client lib srv now peer reader st)) = Close"
    for now peer reader st
    by (simp add: handle_client_def Let_def split: prod.splits bool.splits)
  from reply_2 only_accepted closes show ?thesis by auto
qed

theorem rejected_target_gets_reply_2_witness:
  "parse_address (ipv4_lib (\<lambda>_ _. True))
     [5, 1, 0, 3, 16, 101, 118, 105, 108, 46, 101, 120, 97, 109, 112, 108, 101, 46, 99, 111, 109, 0, 80]
     = Inr (''evil.example.com'', 80)
   \<and> \<not> is_telegram_address (ipv4_lib (\<lambda>_ _. True))
         (telegram_domains (config (default_server (ipv4_lib (\<lambda>_ _. True))))) ''evil.example.com''
   \<and> handle_socks5_request (ipv4_lib (\<lambda>_ _. True)) (default_server (ipv4_lib (\<lambda>_ _. True)))
       [5, 1, 0, 3, 16, 101, 118, 105, 108, 46, 101, 120, 97, 109, 112, 108, 101, 46, 99, 111, 109, 0, 80]
       = [Write [5, 2, 0, 1, 0, 0, 0, 0, 0, 0]]
   \<and> parse_address (ipv4_lib (\<lambda>_ _. True)) [5, 1, 0, 1, 8, 8, 8, 8, 0, 53] = Inr (''8.8.8.8'', 53)
   \<and> handle_socks5_request (ipv4_lib (\<lambda>_ _. True)) (default_server (ipv4_lib (\<lambda>_ _. True)))
       [5, 1, 0, 1, 8, 8, 8, 8, 0, 53] = [Write [5, 2, 0, 1, 0, 0, 0, 0, 0, 0]]"
proof -
  let ?lib = "ipv4_lib (\<lambda>_ _. True) :: (nat, nat \<times> nat) pylib"
  let ?data = "[5, 1, 0, 3, 16, 101, 118, 105, 108, 46, 101, 120, 97, 109, 112, 108, 101, 46,
                99, 111, 109, 0, 80] :: bytes"
  let ?data4 = "[5, 1, 0, 1, 8, 8, 8, 8, 0, 53] :: bytes"
  have parsed: "parse_address ?lib ?data = Inr (''evil.example.com'', 80)"
    by (rule parse_address_evil)
  have rejected: "\<not> is_telegram_address ?lib (telegram_domains (config (default_server ?lib)))
                     ''evil.example.com''"
    by (simp add: default_server_def default_config_def default_rejects_evil)
  have parsed4: "parse_address ?lib ?data4 = Inr (''8.8.8.8'', 53)"
    by (rule parse_address_8888)
  have rejected4: "\<not> is_telegram_address ?lib (telegram_domains (config (default_server ?lib)))
                      ''8.8.8.8''"
    by (simp add: default_server_def default_config_def default_rejects_8888)
  have "10 \<le> length ?data" and "?data ! 0 = 5" and "?data ! 1 = 1"
    by simp_all
  note domain = rejected_target_gets_reply_2 [OF this parsed rejected]
  have "10 \<le> length ?data4" and "?data4 ! 0 = 5" and "?data4 ! 1 = 1"
    by simp_all
  note ipv4 = rejected_target_gets_reply_2 [OF this parsed4 rejected4]
  from domain ipv4 parsed rejected parsed4
  show ?thesis by blast
qed

text \<open>
  The claim as the specification words it, for every CONNECT request, fails on a
  well-formed request for the two-byte domain \<open>ab\<close>: the filter does not accept \<open>ab\<close>,
  and the engine writes nothing.
\<close>

theorem short_rejected_request_gets_no_reply:
  "\<not> is_telegram_address (ipv4_lib (\<lambda>_ _. True))
       (telegram_domains (config (default_server (ipv4_lib (\<lambda>_ _. True))))) ''ab''
   \<and> decode_utf8_ignore (ipv4_lib (\<lambda>_ _. True)) [97, 98] = ''ab''
   \<and> handle_socks5_request (ipv4_lib (\<lambda>_ _. True)) (default_server (ipv4_lib (\<lambda>_ _. True)))
       [5, 1, 0, 3, 2, 97, 98, 0, 80] = []"
proof -
  have "decode_utf8_ignore (ipv4_lib (\<lambda>_ _. True)) [97, 98] = ''ab''"
    by (simp add: ipv4_lib_def decode_ascii_ab)
  moreover have "\<not> is_telegram_address (ipv4_lib (\<lambda>_ _. True))
       (telegram_domains (config (default_server (ipv4_lib (\<lambda>_ _. True))))) ''ab''"
    by (simp add: default_server_def default_config_def default_rejects_ab)
  moreover have "handle_socks5_request (ipv4_lib (\<lambda>_ _. True))
       (default_server (ipv4_lib (\<lambda>_ _. True))) [5, 1, 0, 3, 2, 97, 98, 0, 80] = []"
    by (simp add: handle_socks5_request_def)
  ultimately show ?thesis by blast
qed

section \<open>SOCKS5 Protocol Engine: unsupported versions\<close>

text \<open>
  C5. A greeting whose version byte is not 5 ends the handshake with no byte written.
  A request message whose version byte is not 5 is answered: when at least ten bytes
  were read the engine writes the ten-byte reply with code 7, and only a request of
  fewer than ten bytes is dropped with no byte written.
\<close>

theorem unsupported_version_handling:
  "(fst (reader_read 262 reader) \<noteq> [] \<and> fst (reader_read 262 reader) ! 0 \<noteq> 5
      \<longrightarrow> handle_socks5_handshake lib srv reader = [])
   \<and> (10 \<le> length data \<and> data ! 0 \<noteq> 5
      \<longrightarrow> handle_socks5_request lib srv data = [Write [5, 7, 0, 1, 0, 0, 0, 0, 0, 0]])
   \<and> (length data < 10 \<longrightarrow> handle_socks5_request lib srv data = [])"
  by (simp add: handle_socks5_handshake_def handle_socks5_request_def SOCKS_VERSION_def
        reply_def Let_def split: prod.splits)

theorem unsupported_version_handling_witness:
  "handle_socks5_handshake (ipv4_lib (\<lambda>_ _. True)) (default_server (ipv4_lib (\<lambda>_ _. True)))
     [[4, 1, 2]] = []
   \<and> handle_socks5_request (ipv4_lib (\<lambda>_ _. True)) (default_server (ipv4_lib (\<lambda>_ _. True)))
       [4, 1, 0, 3, 3, 97, 46, 98, 0, 80] = [Write [5, 7, 0, 1, 0, 0, 0, 0, 0, 0]]
   \<and> handle_socks5_request (ipv4_lib (\<lambda>_ _. True)) (default_server (ipv4_lib (\<lambda>_ _. True)))
       [4, 1, 0, 3, 2, 97, 98, 0, 80] = []"
  using unsupported_version_handling
          [of "[[4, 1, 2]]" "ipv4_lib (\<lambda>_ _. True)" "default_server (ipv4_lib (\<lambda>_ _. True))"
              "[4, 1, 0, 3, 3, 97, 46, 98, 0, 80]"]
        unsupported_version_handling
          [of "[[4, 1, 2]]" "ipv4_lib (\<lambda>_ _. True)" "default_server (ipv4_lib (\<lambda>_ _. True))"
              "[4, 1, 0, 3, 2, 97, 98, 0, 80]"]
  by (simp add: reader_read_def)

text \<open>
  The claim as worded, silence for a wrong version in the request message too, fails:
  with authentication off, a session whose request carries version 4 gets the method
  reply and then the reply with code 7.
\<close>

theorem wrong_request_version_is_answered:
  "handle_socks5_request (ipv4_lib (\<lambda>_ _. True)) (default_server (ipv4_lib (\<lambda>_ _. True)))
     [4, 1, 0, 1, 149, 154, 167, 51, 1, 187] = [Write [5, 7, 0, 1, 0, 0, 0, 0, 0, 0]]
   \<and> handle_socks5_handshake (ipv4_lib (\<lambda>_ _. True))
        \<lparr>config = default_config\<lparr>auth_required := False\<rparr>, auth_tokens = Map.empty\<rparr>
        [[5, 1, 0], [4, 1, 0, 1, 149, 154, 167, 51, 1, 187]]
       = [Write [5, 0], Write [5, 7, 0, 1, 0, 0, 0, 0, 0, 0]]"
  by (simp add: handle_socks5_handshake_def handle_socks5_request_def SOCKS_VERSION_def
        reply_def reader_read_def default_config_def py_slice_def)

section \<open>SOCKS5 Protocol Engine: the greeting\<close>

text \<open>
  C6. For a greeting of version 5 that offers between 1 and 255 methods: when
  authentication is required and method 2 is offered, the first thing the server writes
  is \<open>[5, 2]\<close>; when authentication is not required it is \<open>[5, 0]\<close>; when authentication
  is required and method 2 is not offered, the server writes \<open>[5, 0xFF]\<close> and does
  nothing more, whatever the client sends next.
\<close>

theorem greeting_method_selection:
  assumes "greeting = 5 # word_of_nat (length methods) # methods"
    and "1 \<le> length methods" and "length methods \<le> 255"
  shows "(auth_required (config srv) \<and> 2 \<in> set methods
            \<longrightarrow> take 1 (handle_socks5_handshake lib srv (greeting # reader)) = [Write [5, 2]])
       \<and> (\<not> auth_required (config srv)
            \<longrightarrow> take 1 (handle_socks5_handshake lib srv (greeting # reader)) = [Write [5, 0]])
       \<and> (auth_required (config srv) \<and> 2 \<notin> set methods
            \<longrightarrow> handle_socks5_handshake lib srv (greeting # reader) = [Write [5, 0xFF]])"
proof -
  have "length greeting \<le> 262"
    using assms by simp
  then have rd: "reader_read 262 (greeting # reader) = (greeting, reader)"
    by (rule reader_read_whole)
  have m: "py_slice greeting 2 (2 + unat (greeting ! 1)) = methods"
    using greeting_methods [OF assms(3)] assms(1) by simp
  have g: "\<not> length greeting < 3" "greeting ! 0 = 5"
    using assms by (cases methods; simp)+
  show ?thesis
    using g m
    by (simp add: handle_socks5_handshake_def rd SOCKS_VERSION_def Let_def split: prod.splits)
qed

theorem greeting_method_selection_witness:
  "take 1 (handle_socks5_handshake (ipv4_lib (\<lambda>_ _. True))
             (default_server (ipv4_lib (\<lambda>_ _. True))) [[5, 2, 0, 2]]) = [Write [5, 2]]
   \<and> take 1 (handle_socks5_handshake (ipv4_lib (\<lambda>_ _. True))
               \<lparr>config = default_config\<lparr>auth_required := False\<rparr>, auth_tokens = Map.empty\<rparr>
               [[5, 2, 0, 2]]) = [Write [5, 0]]
   \<and> handle_socks5_handshake (ipv4_lib (\<lambda>_ _. True))
        (default_server (ipv4_lib (\<lambda>_ _. True))) [[5, 1, 0], [1, 1, 97, 1, 98]] = [Write [5, 0xFF]]"
proof -
  let ?lib = "ipv4_lib (\<lambda>_ _. True) :: (nat, nat \<times> nat) pylib"
  let ?open = "\<lparr>config = default_config\<lparr>auth_required := False\<rparr>, auth_tokens = Map.empty\<rparr>"
  have required: "auth_required (config (default_server ?lib))"
    by (simp add: default_server_def default_config_def)
  have not_required: "\<not> auth_required (config ?open)"
    by simp
  have two: "[5, 2, 0, 2] = 5 # word_of_nat (length [0, 2 :: byte]) # [0, 2 :: byte]"
    by simp
  have one: "[5, 1, 0] = 5 # word_of_nat (length [0 :: byte]) # [0 :: byte]"
    by simp
  from greeting_method_selection [OF two, of "default_server ?lib" ?lib "[]"] required
  have "take 1 (handle_socks5_handshake ?lib (default_server ?lib) [[5, 2, 0, 2]]) = [Write [5, 2]]"
    by simp
  moreover from greeting_method_selection [OF two, of ?open ?lib "[]"] not_required
  have "take 1 (handle_socks5_handshake ?lib ?open [[5, 2, 0, 2]]) = [Write [5, 0]]"
    by simp
  moreover from greeting_method_selection
                  [OF one, of "default_server ?lib" ?lib "[[1, 1, 97, 1, 98]]"] required
  have "handle_socks5_handshake ?lib (default_server ?lib) [[5, 1, 0], [1, 1, 97, 1, 98]]
          = [Write [5, 0xFF]]"
    by simp
  ultimately show ?thesis by blast
qed

section \<open>SOCKS5 Protocol Engine: short domain requests\<close>

text \<open>
  C9. A CONNECT request of address type 3 for a domain name of \<open>n \<le> 2\<close> bytes is
  \<open>7 + n\<close> bytes long: four header bytes, the length byte, the name and two port bytes.
  That is fewer than the ten bytes the engine asks for before it parses anything, so
  the engine returns with no byte written and no dial.
\<close>

theorem short_domain_request_dropped:
  assumes "length name \<le> 2"
  shows "length ([5, 1, rsv, 3, word_of_nat (length name)] @ name @ [port_hi, port_lo])
           = 7 + length name
       \<and> handle_socks5_request lib srv
           ([5, 1, rsv, 3, word_of_nat (length name)] @ name @ [port_hi, port_lo]) = []"
  using assms by (simp add: handle_socks5_request_def)

theorem short_domain_request_dropped_witness:
  "length [97, 98 :: byte] \<le> 2
   \<and> handle_socks5_request (ipv4_lib (\<lambda>_ _. True)) (default_server (ipv4_lib (\<lambda>_ _. True)))
       [5, 1, 0, 3, 2, 97, 98, 1, 187] = []"
  using short_domain_request_dropped
          [of "[97, 98]" 0 1 187 "ipv4_lib (\<lambda>_ _. True)" "default_server (ipv4_lib (\<lambda>_ _. True))"]
  by simp

section \<open>Rate Limiter: the sliding window\<close>

text \<open>
  C4. For a source IP that is not exempt, with limit \<open>N\<close> and window \<open>W\<close>: an admission
  check first removes the old timestamps of that IP from the front of its record, then
  admits exactly when fewer than \<open>N\<close> remain, and records the current time only when it
  admits. On a record in time order the removal leaves exactly the timestamps newer
  than \<open>now - W\<close>; a timestamp exactly \<open>W\<close> old counts as old. Consequently, for
  \<open>N + 1\<close> connections in time order whose last arrives less than \<open>W\<close> after the first,
  starting from an empty record, the first \<open>N\<close> are admitted and the last is rejected;
  and a connection arriving once \<open>W\<close> has elapsed from the first is admitted again.
\<close>

theorem sliding_window_rate_limit:
  assumes "client_ip \<notin> set [''127.0.0.1'', ''::1'', ''localhost'']"
  shows "is_allowed cfg now client_ip st =
           (let kept = popleft_old (now - real_of_int (rate_limit_window cfg))
                         (defaultdict_get (requests st) client_ip)
            in if int (length kept) < rate_limit_per_ip cfg
               then (True, st\<lparr>requests := (requests st)(client_ip \<mapsto> kept @ [now])\<rparr>)
               else (False, st\<lparr>requests := (requests st)(client_ip \<mapsto> kept),
                               rate_limit_hits := rate_limit_hits st + 1\<rparr>))
       \<and> (sorted (defaultdict_get (requests st) client_ip) \<longrightarrow>
            popleft_old (now - real_of_int (rate_limit_window cfg))
                (defaultdict_get (requests st) client_ip)
              = filter (\<lambda>t. now - real_of_int (rate_limit_window cfg) < t)
                  (defaultdict_get (requests st) client_ip))
       \<and> (0 \<le> rate_limit_per_ip cfg \<and> int (length ts) = rate_limit_per_ip cfg + 1
            \<and> sorted ts \<and> last ts - hd ts < real_of_int (rate_limit_window cfg)
            \<and> defaultdict_get (requests st) client_ip = [] \<longrightarrow>
            fst (admission_checks cfg client_ip ts st) = replicate (length ts - 1) True @ [False]
            \<and> (\<forall>later. 1 \<le> rate_limit_per_ip cfg
                  \<and> hd ts + real_of_int (rate_limit_window cfg) \<le> later \<longrightarrow>
                  fst (is_allowed cfg later client_ip
                         (snd (admission_checks cfg client_ip ts st)))))"
proof (intro conjI impI allI)
  show "is_allowed cfg now client_ip st =
           (let kept = popleft_old (now - real_of_int (rate_limit_window cfg))
                         (defaultdict_get (requests st) client_ip)
            in if int (length kept) < rate_limit_per_ip cfg
               then (True, st\<lparr>requests := (requests st)(client_ip \<mapsto> kept @ [now])\<rparr>)
               else (False, st\<lparr>requests := (requests st)(client_ip \<mapsto> kept),
                               rate_limit_hits := rate_limit_hits st + 1\<rparr>))"
    by (rule is_allowed_step [OF assms])
next
  assume "sorted (defaultdict_get (requests st) client_ip)"
  then show "popleft_old (now - real_of_int (rate_limit_window cfg))
                (defaultdict_get (requests st) client_ip)
              = filter (\<lambda>t. now - real_of_int (rate_limit_window cfg) < t)
                  (defaultdict_get (requests st) client_ip)"
    by (rule popleft_old_filter)
next
  assume h: "0 \<le> rate_limit_per_ip cfg \<and> int (length ts) = rate_limit_per_ip cfg + 1
            \<and> sorted ts \<and> last ts - hd ts < real_of_int (rate_limit_window cfg)
            \<and> defaultdict_get (requests st) client_ip = []"
  then show "fst (admission_checks cfg client_ip ts st) = replicate (length ts - 1) True @ [False]"
    using window_scenario(1) [OF assms, of cfg ts st] by blast
next
  fix later
  assume h: "0 \<le> rate_limit_per_ip cfg \<and> int (length ts) = rate_limit_per_ip cfg + 1
            \<and> sorted ts \<and> last ts - hd ts < real_of_int (rate_limit_window cfg)
            \<and> defaultdict_get (requests st) client_ip = []"
    and l: "1 \<le> rate_limit_per_ip cfg
            \<and> hd ts + real_of_int (rate_limit_window cfg) \<le> later"
  let ?st' = "snd (admission_checks cfg client_ip ts st)"
  have rec: "defaultdict_get (requests ?st') client_ip = butlast ts"
    using window_scenario(2) [OF assms, of cfg ts st] h by blast
  have two: "2 \<le> length ts"
    using h l by linarith
  then have ne: "butlast ts \<noteq> []"
    by (cases ts rule: rev_cases) auto
  have hd: "hd (butlast ts) = hd ts"
    using two by (cases ts rule: rev_cases) (auto simp: hd_append)
  have len: "int (length (butlast ts)) \<le> rate_limit_per_ip cfg"
    using h by simp
  show "fst (is_allowed cfg later client_ip ?st')"
    using admitted_after_window [OF assms rec ne len] hd l by simp
qed

theorem sliding_window_rate_limit_witness:
  "fst (admission_checks (default_config\<lparr>rate_limit_per_ip := 2\<rparr>) ''203.0.113.5''
          [0, 10, 59] initial_state) = [True, True, False]
   \<and> fst (is_allowed (default_config\<lparr>rate_limit_per_ip := 2\<rparr>) 60 ''203.0.113.5''
            (snd (admission_checks (default_config\<lparr>rate_limit_per_ip := 2\<rparr>) ''203.0.113.5''
                    [0, 10, 59] initial_state)))"
proof -
  have ip: "''203.0.113.5'' \<notin> set [''127.0.0.1'', ''::1'', ''localhost'']"
    by simp
  have hyps: "0 \<le> rate_limit_per_ip (default_config\<lparr>rate_limit_per_ip := 2\<rparr>)
      \<and> int (length [0, 10, 59 :: real]) = rate_limit_per_ip (default_config\<lparr>rate_limit_per_ip := 2\<rparr>) + 1
      \<and> sorted [0, 10, 59 :: real]
      \<and> last [0, 10, 59 :: real] - hd [0, 10, 59 :: real]
           < real_of_int (rate_limit_window (default_config\<lparr>rate_limit_per_ip := 2\<rparr>))
      \<and> defaultdict_get (requests initial_state) ''203.0.113.5'' = []"
    by (simp add: default_config_def initial_state_def defaultdict_get_def)
  have later: "1 \<le> rate_limit_per_ip (default_config\<lparr>rate_limit_per_ip := 2\<rparr>)
      \<and> hd [0, 10, 59 :: real] + real_of_int (rate_limit_window (default_config\<lparr>rate_limit_per_ip := 2\<rparr>)) \<le> 60"
    by (simp add: default_config_def)
  note window = sliding_window_rate_limit
         [OF ip, of "default_config\<lparr>rate_limit_per_ip := 2\<rparr>" 0 initial_state "[0, 10, 59]"]
  from window hyps
  have run: "fst (admission_checks (default_config\<lparr>rate_limit_per_ip := 2\<rparr>) ''203.0.113.5''
                    [0, 10, 59] initial_state)
               = replicate (length [0, 10, 59 :: real] - 1) True @ [False]"
    by blast
  have decisions: "replicate (length [0, 10, 59 :: real] - 1) True @ [False] = [True, True, False]"
    by (simp add: numeral_2_eq_2)
  from window hyps later
  have "fst (is_allowed (default_config\<lparr>rate_limit_per_ip := 2\<rparr>) 60 ''203.0.113.5''
            (snd (admission_checks (default_config\<lparr>rate_limit_per_ip := 2\<rparr>) ''203.0.113.5''
                    [0, 10, 59] initial_state)))"
    by blast
  with run decisions show ?thesis
    by (simp only: simp_thms)
qed

section \<open>Rate Limiter: exempt peers\<close>

text \<open>
  C8. A connection whose source IP string starts with \<open>172.\<close> or \<open>10.\<close>, or is
  \<open>127.0.0.1\<close>, \<open>::1\<close> or \<open>localhost\<close>, never reaches the rate limiter: the handshake
  runs, the record of timestamps and the counter of rate-limit hits are left as they
  were, whatever they hold. The test is on the string, so the public address
  \<open>172.217.0.0\<close> is exempt as well.
\<close>

theorem exempt_peer_skips_rate_limiter:
  assumes "startswith client_ip ''172.'' \<or> startswith client_ip ''10.''
           \<or> client_ip \<in> set [''127.0.0.1'', ''::1'', ''localhost'']"
  shows "fst (handle_client lib srv now (Some (client_ip, port)) reader st)
           = handle_socks5_handshake lib srv reader @ [Close]
       \<and> requests (snd (handle_client lib srv now (Some (client_ip, port)) reader st)) = requests st
       \<and> rate_limit_hits (snd (handle_client lib srv now (Some (client_ip, port)) reader st))
           = rate_limit_hits st"
  using assms by (auto simp add: handle_client_def Let_def)

theorem exempt_peer_skips_rate_limiter_witness:
  "startswith ''172.217.0.0'' ''172.''
   \<and> fst (handle_client (ipv4_lib (\<lambda>_ _. True))
            \<lparr>config = default_config\<lparr>rate_limit_per_ip := 0\<rparr>, auth_tokens = Map.empty\<rparr>
            0 (Some (''172.217.0.0'', 40000)) [[5, 1, 0]] initial_state)
       = [Write [5, 0xFF], Close]
   \<and> requests (snd (handle_client (ipv4_lib (\<lambda>_ _. True))
            \<lparr>config = default_config\<lparr>rate_limit_per_ip := 0\<rparr>, auth_tokens = Map.empty\<rparr>
            0 (Some (''172.217.0.0'', 40000)) [[5, 1, 0]] initial_state)) = Map.empty"
proof -
  have pre: "startswith ''172.217.0.0'' ''172.''"
    by (simp add: startswith_def)
  have shake: "handle_socks5_handshake (ipv4_lib (\<lambda>_ _. True))
            \<lparr>config = default_config\<lparr>rate_limit_per_ip := 0\<rparr>, auth_tokens = Map.empty\<rparr>
            [[5, 1, 0]] = [Write [5, 0xFF]]"
    by (simp add: handle_socks5_handshake_def reader_read_def SOCKS_VERSION_def
          default_config_def py_slice_def)
  from exempt_peer_skips_rate_limiter
         [of "''172.217.0.0''" "ipv4_lib (\<lambda>_ _. True)"
             "\<lparr>config = default_config\<lparr>rate_limit_per_ip := 0\<rparr>, auth_tokens = Map.empty\<rparr>"
             0 40000 "[[5, 1, 0]]" initial_state]
       pre shake
  show ?thesis by (simp add: initial_state_def)
qed

section \<open>Domain Filter: what it accepts\<close>

text \<open>
  C2. The Domain Filter accepts an address exactly when one of three checks succeeds:
  the address equals an entry of the allow set; or it ends with a dot followed by an
  entry that does not start with \<open>*.\<close>; or it parses as an IP literal and lies inside
  the network that an entry containing a slash parses to. The first two checks range
  over every entry, CIDR strings included, and the second skips the entries that start
  with \<open>*.\<close>.
\<close>

theorem domain_filter_accepts_iff:
  "is_telegram_address lib domains addr \<longleftrightarrow>
     addr \<in> set domains
     \<or> (\<exists>d\<in>set domains. \<not> startswith d ''*.'' \<and> endswith addr (''.'' @ d))
     \<or> (\<exists>ip. ip_address lib addr = Some ip
          \<and> (\<exists>c\<in>set domains. CHR ''/'' \<in> set c
                \<and> (\<exists>network. ip_network lib c = Some network
                                \<and> net_contains lib network ip)))"
  by (auto simp add: is_telegram_address_def subdomain_loop_iff cidr_loop_iff
        split: option.splits)

theorem domain_filter_accepts_iff_witness:
  "is_telegram_address (ipv4_lib (\<lambda>_ _. True)) default_telegram_domains ''149.154.167.51''
   \<and> is_telegram_address (ipv4_lib (\<lambda>_ _. True)) default_telegram_domains
        ''venus.web.telegram.org''
   \<and> \<not> is_telegram_address (ipv4_lib (\<lambda>_ _. True)) default_telegram_domains ''telegram.org''"
proof -
  let ?lib = "ipv4_lib (\<lambda>_ _. True) :: (nat, nat \<times> nat) pylib"
  have in_block: "ip_address ?lib ''149.154.167.51'' = Some 2509940531
      \<and> ''149.154.160.0/20'' \<in> set default_telegram_domains
      \<and> CHR ''/'' \<in> set ''149.154.160.0/20''
      \<and> ip_network ?lib ''149.154.160.0/20'' = Some (2509938688, 20)
      \<and> net_contains ?lib (2509938688, 20) 2509940531"
    by (simp add: ipv4_lib_def ipv4_address_example ipv4_network_example
          default_telegram_domains_def ipv4_contains_def)
  have subdomain: "''web.telegram.org'' \<in> set default_telegram_domains
      \<and> \<not> startswith ''web.telegram.org'' ''*.''
      \<and> endswith ''venus.web.telegram.org'' (''.'' @ ''web.telegram.org'')"
    by (simp add: default_telegram_domains_def startswith_def endswith_def suffix_def)
  have parent: "''telegram.org'' \<notin> set default_telegram_domains
      \<and> (\<forall>d\<in>set default_telegram_domains. \<not> endswith ''telegram.org'' (''.'' @ d))
      \<and> ip_address ?lib ''telegram.org'' = None"
    by (simp add: default_telegram_domains_def endswith_def suffix_def ipv4_lib_def
          ipv4_address_def)
  from in_block
  have "is_telegram_address ?lib default_telegram_domains ''149.154.167.51''"
    unfolding domain_filter_accepts_iff
                [of ?lib default_telegram_domains "''149.154.167.51''"]
    by blast
  moreover from subdomain
  have "is_telegram_address ?lib default_telegram_domains ''venus.web.telegram.org''"
    unfolding domain_filter_accepts_iff
                [of ?lib default_telegram_domains "''venus.web.telegram.org''"]
    by blast
  moreover from parent
  have "\<not> is_telegram_address ?lib default_telegram_domains ''telegram.org''"
    unfolding domain_filter_accepts_iff [of ?lib default_telegram_domains "''telegram.org''"]
    by auto
  ultimately show ?thesis by blast
qed

text \<open>
  The claim as worded has one notion of allow-set hostname for the exact check and the
  suffix check. With the allow set \<open>{*.telegram.org}\<close> it fails whichever way that entry
  is classified: as a hostname, the worded filter accepts \<open>x.*.telegram.org\<close> and the code
  does not; as no hostname, the worded filter rejects \<open>*.telegram.org\<close> and the code
  accepts it. With the default allow set, its five names as the hostnames and its CIDR
  strings as the CIDR blocks, the worded filter rejects the address string
  \<open>149.154.160.0/20\<close> and the code accepts it.
\<close>

theorem domain_filter_differs_from_wording:
  "(domain_filter_spec (ipv4_lib (\<lambda>_ _. True)) [''*.telegram.org''] [] ''x.*.telegram.org''
      \<and> domain_filter_spec (ipv4_lib (\<lambda>_ _. True)) [''*.telegram.org''] [''*.telegram.org'']
           ''x.*.telegram.org''
      \<and> \<not> is_telegram_address (ipv4_lib (\<lambda>_ _. True)) [''*.telegram.org''] ''x.*.telegram.org'')
   \<and> (\<not> domain_filter_spec (ipv4_lib (\<lambda>_ _. True)) [] [] ''*.telegram.org''
      \<and> \<not> domain_filter_spec (ipv4_lib (\<lambda>_ _. True)) [] [''*.telegram.org''] ''*.telegram.org''
      \<and> is_telegram_address (ipv4_lib (\<lambda>_ _. True)) [''*.telegram.org''] ''*.telegram.org'')
   \<and> (\<not> domain_filter_spec (ipv4_lib (\<lambda>_ _. True))
            (take 5 default_telegram_domains) (drop 5 default_telegram_domains)
            ''149.154.160.0/20''
      \<and> is_telegram_address (ipv4_lib (\<lambda>_ _. True)) default_telegram_domains
           ''149.154.160.0/20'')"
  by (simp add: domain_filter_spec_def is_telegram_address_def ipv4_lib_def ipv4_address_def
        parse_octet_def is_digit_def startswith_def endswith_def suffix_def
        default_telegram_domains_def)

section \<open>Domain Filter: CIDR entries in the hostname checks\<close>

text \<open>
  C10. The exact check and the suffix check range over every entry of the allow set,
  the CIDR strings among them. An address string that equals an entry containing a
  slash is accepted, and so is one that ends with a dot followed by such an entry; a
  CIDR string does not start with \<open>*.\<close>, which is all the suffix check asks of an entry.
\<close>

theorem cidr_entry_matches_as_hostname:
  assumes "c \<in> set domains" and "CHR ''/'' \<in> set c" and "\<not> startswith c ''*.''"
  shows "is_telegram_address lib domains c
       \<and> is_telegram_address lib domains (label @ ''.'' @ c)"
proof -
  have "endswith (label @ ''.'' @ c) (''.'' @ c)"
    unfolding endswith_def by (rule suffixI) simp
  with assms have "subdomain_loop domains (label @ ''.'' @ c)"
    unfolding subdomain_loop_iff by blast
  with assms(1) show ?thesis
    by (simp add: is_telegram_address_def)
qed

theorem cidr_entry_matches_as_hostname_witness:
  "''149.154.160.0/20'' \<in> set default_telegram_domains
   \<and> is_telegram_address (ipv4_lib (\<lambda>_ _. True)) default_telegram_domains ''149.154.160.0/20''
   \<and> is_telegram_address (ipv4_lib (\<lambda>_ _. True)) default_telegram_domains
        ''x.149.154.160.0/20''"
  using cidr_entry_matches_as_hostname
          [of "''149.154.160.0/20''" default_telegram_domains "ipv4_lib (\<lambda>_ _. True)" "''x''"]
  by (simp add: default_telegram_domains_def startswith_def)

section \<open>Traffic Obfuscator: the round trip\<close>

text \<open>
  C3. \<open>deobfuscate (obfuscate x) = x\<close> for every byte string \<open>x\<close>, the empty one
  included, for each choice of header lines and each padding of 1 to 16 bytes.
  \<open>obfuscate\<close> puts the header lines and the blank-line marker in front of the token and
  the padding behind it. The header block ends with a line break, so the first blank
  line of the result starts two bytes before the marker, and the body that \<open>deobfuscate\<close>
  splits off is a line break, the token and the padding. The padding sizes are tried
  from 1 upwards. The round trip therefore rests on two properties of the cipher, which
  are the hypotheses: decryption accepts the token behind a line break, and a token
  followed by a proper non-empty prefix of the padding either fails to decrypt or
  decrypts to \<open>x\<close>.
\<close>

theorem deobfuscate_obfuscate:
  assumes "path_choice < 4" and "agent_choice < 3"
    and "1 \<le> length padding" and "length padding \<le> 16"
    and lenient: "decrypt f (encode CRLF @ encrypt f x) = Some x"
    and strict: "\<forall>j. 0 < j \<and> j < length padding \<longrightarrow>
                   decrypt f (encode CRLF @ encrypt f x @ take j padding) = None
                   \<or> decrypt f (encode CRLF @ encrypt f x @ take j padding) = Some x"
  shows "deobfuscate f (obfuscate f path_choice agent_choice padding x) = x"
proof -
  let ?data = "obfuscate f path_choice agent_choice padding x"
  let ?body = "encode CRLF @ encrypt f x @ padding"
  let ?p = "length padding"
  obtain h where split: "split_once (encode (CRLF @ CRLF)) ?data = Some (h, ?body)"
    using split_after_headers [OF assms(1,2), of "encrypt f x @ padding"]
    by (auto simp add: obfuscate_def Let_def)
  have at_p: "take (length ?body - ?p) ?body = encode CRLF @ encrypt f x"
    by simp
  have before_p: "take (length ?body - k) ?body = encode CRLF @ encrypt f x @ take (?p - k) padding"
    if "k < ?p" for k
    using that by simp
  have "try_padding_sizes f ?data ?body [1..<17] = x"
  proof (rule try_padding_sizes_found [where p = ?p])
    show "0 < (1::nat)" by simp
    show "1 \<le> ?p" by (rule assms(3))
    show "?p < 17" using assms(4) by simp
    show "decrypt f (take (length ?body - ?p) ?body) = Some x"
      unfolding at_p by (rule lenient)
    show "\<forall>k. 1 \<le> k \<and> k < ?p \<longrightarrow>
           decrypt f (take (length ?body - k) ?body) = None
           \<or> decrypt f (take (length ?body - k) ?body) = Some x"
    proof (intro allI impI)
      fix k assume k: "1 \<le> k \<and> k < ?p"
      then have "0 < ?p - k \<and> ?p - k < ?p" by auto
      with strict have "decrypt f (encode CRLF @ encrypt f x @ take (?p - k) padding) = None
           \<or> decrypt f (encode CRLF @ encrypt f x @ take (?p - k) padding) = Some x" by blast
      moreover from k have "k < ?p" by simp
      ultimately show "decrypt f (take (length ?body - k) ?body) = None
           \<or> decrypt f (take (length ?body - k) ?body) = Some x"
        by (simp only: before_p)
    qed
  qed
  then show ?thesis
    by (simp add: deobfuscate_def split)
qed

theorem deobfuscate_obfuscate_witness:
  "deobfuscate sample_fernet (obfuscate sample_fernet 1 2 [7, 46] [1, 2, 3]) = [1, 2, 3]
   \<and> deobfuscate sample_fernet (obfuscate sample_fernet 0 0 [13] []) = []"
proof -
  have a: "decrypt sample_fernet (encode CRLF @ encrypt sample_fernet [1, 2, 3]) = Some [1, 2, 3]"
    by (simp add: sample_fernet_def sample_encrypt_def sample_decrypt_def encode_def CRLF_def)
  have b: "\<forall>j. 0 < j \<and> j < length [7, 46 :: byte] \<longrightarrow>
                   decrypt sample_fernet (encode CRLF @ encrypt sample_fernet [1, 2, 3] @ take j [7, 46]) = None
                   \<or> decrypt sample_fernet (encode CRLF @ encrypt sample_fernet [1, 2, 3] @ take j [7, 46]) = Some [1, 2, 3]"
  proof (intro allI impI)
    fix j :: nat assume "0 < j \<and> j < length [7, 46 :: byte]"
    then have "j = 1" by simp
    then show "decrypt sample_fernet (encode CRLF @ encrypt sample_fernet [1, 2, 3] @ take j [7, 46]) = None
                   \<or> decrypt sample_fernet (encode CRLF @ encrypt sample_fernet [1, 2, 3] @ take j [7, 46]) = Some [1, 2, 3]"
      by (simp add: sample_fernet_def sample_encrypt_def sample_decrypt_def encode_def CRLF_def)
  qed
  have c: "decrypt sample_fernet (encode CRLF @ encrypt sample_fernet []) = Some []"
    by (simp add: sample_fernet_def sample_encrypt_def sample_decrypt_def encode_def CRLF_def)
  have d: "\<forall>j. 0 < j \<and> j < length [13 :: byte] \<longrightarrow>
                   decrypt sample_fernet (encode CRLF @ encrypt sample_fernet [] @ take j [13]) = None
                   \<or> decrypt sample_fernet (encode CRLF @ encrypt sample_fernet [] @ take j [13]) = Some []"
    by simp
  from deobfuscate_obfuscate [of 1 2 "[7, 46]" sample_fernet "[1, 2, 3]", OF _ _ _ _ a b]
  have "deobfuscate sample_fernet (obfuscate sample_fernet 1 2 [7, 46] [1, 2, 3]) = [1, 2, 3]" by simp
  moreover from deobfuscate_obfuscate [of 0 0 "[13]" sample_fernet "[]", OF _ _ _ _ c d]
  have "deobfuscate sample_fernet (obfuscate sample_fernet 0 0 [13] []) = []" by simp
  ultimately show ?thesis by blast
qed


section \<open>Port Hopper: one hop\<close>

text \<open>
  C7. A hop from a current port \<open>old\<close> whose listener is open, started at time \<open>now\<close>,
  with draws inside the configured range of which one differs from \<open>old\<close>, and with a
  listener that can be started: the hop takes a new port \<open>new\<close> inside the range and
  different from \<open>old\<close>; from \<open>now\<close> on \<open>new\<close> is the current port, its listener forwards
  to the address of the SOCKS5 engine, and the listener of \<open>old\<close> is still open; that state
  holds until the grace period of at least 60 seconds is over, and only then the
  listener of \<open>old\<close> is closed and removed, \<open>new\<close> staying the one current port (and the
  one open port when \<open>old\<close> was the only open port before).
\<close>

theorem hop_keeps_old_port_through_grace:
  assumes range: "\<forall>p\<in>set draws. fst (port_range cfg) \<le> p \<and> p \<le> snd (port_range cfg)"
    and ends: "\<exists>p\<in>set draws. Some p \<noteq> current_port st"
    and starts: "\<forall>p\<in>set draws. start_server p"
    and cur: "current_port st = Some old" "old \<noteq> 0" "servers st old = Some listener"
    and lag: "0 \<le> lag"
  shows "\<exists>new st1 st2.
      hop_to_new_port cfg start_server draws lag now st
        = Some [(now, st1), (now + 60 + lag, st2)]
      \<and> new \<noteq> old \<and> fst (port_range cfg) \<le> new \<and> new \<le> snd (port_range cfg)
      \<and> current_port st1 = Some new
      \<and> servers st1 new = Some (socks_host cfg, socks_port cfg)
      \<and> servers st1 old = Some listener
      \<and> now + 60 \<le> now + 60 + lag
      \<and> current_port st2 = Some new
      \<and> servers st2 new = Some (socks_host cfg, socks_port cfg)
      \<and> servers st2 old = None
      \<and> (dom (servers st) = {old} \<longrightarrow> dom (servers st2) = {new})"
proof -
  from pick_port_Some [OF ends] obtain new
    where new: "pick_port (current_port st) draws = Some new" "new \<in> set draws"
               "Some new \<noteq> current_port st"
    by blast
  let ?st1 = "st\<lparr>servers := (servers st)(new \<mapsto> handle_hopped_connection cfg),
                  current_port := Some new\<rparr>"
  let ?st2 = "?st1\<lparr>servers := (servers ?st1)(old := None)\<rparr>"
  have ne: "new \<noteq> old"
    using new(3) cur(1) by simp
  have hop: "hop_to_new_port cfg start_server draws lag now st
        = Some [(now, ?st1), (now + 60 + lag, ?st2)]"
    using new(1,2) starts cur ne by (auto simp add: hop_to_new_port_def Let_def)
  have only: "dom (servers ?st2) = {new}" if "dom (servers st) = {old}"
    using that ne by auto
  show ?thesis
    apply (rule exI [of _ new], rule exI [of _ ?st1], rule exI [of _ ?st2])
    using hop ne range new(2) cur lag only
    by (simp add: handle_hopped_connection_def)
qed

theorem hop_keeps_old_port_through_grace_witness:
  "\<exists>new st1 st2.
      hop_to_new_port default_bypass_config (\<lambda>_. True) [8500, 8123] 0 1000
          \<lparr>current_port = Some 8500, servers = [8500 \<mapsto> (''localhost'', 1080)]\<rparr>
        = Some [(1000, st1), (1060, st2)]
      \<and> new \<noteq> 8500 \<and> 8000 \<le> new \<and> new \<le> 9000
      \<and> current_port st1 = Some new
      \<and> servers st1 new = Some (''localhost'', 1080)
      \<and> servers st1 8500 = Some (''localhost'', 1080)
      \<and> current_port st2 = Some new
      \<and> servers st2 new = Some (''localhost'', 1080)
      \<and> servers st2 8500 = None
      \<and> dom (servers st2) = {new}"
proof -
  let ?st = "\<lparr>current_port = Some 8500, servers = [8500 \<mapsto> (''localhost'', 1080 :: nat)]\<rparr>"
  have range: "\<forall>p\<in>set [8500, 8123 :: nat].
                 fst (port_range default_bypass_config) \<le> p
                 \<and> p \<le> snd (port_range default_bypass_config)"
    by (simp add: default_bypass_config_def)
  have ends: "\<exists>p\<in>set [8500, 8123 :: nat]. Some p \<noteq> current_port ?st"
    by simp
  have starts: "\<forall>p\<in>set [8500, 8123 :: nat]. (\<lambda>_. True) p"
    by simp
  have cur: "current_port ?st = Some 8500" "(8500 :: nat) \<noteq> 0"
    "servers ?st 8500 = Some (''localhost'', 1080)"
    by simp_all
  have only: "dom (servers ?st) = {8500}"
    by simp
  from hop_keeps_old_port_through_grace
         [OF range ends starts cur, of 0 1000] only
  show ?thesis
    by (simp add: default_bypass_config_def)
qed

end
